theory Spec2Isabelle
  imports Main "HOL-Library.Word"
begin

section \<open>Strings of the source language\<close>

text \<open>
  The library is TypeScript. A string value is a finite sequence of 16-bit UTF-16 code
  units; \<open>s.length\<close> counts code units, \<open>s[i]\<close> and \<open>s.charCodeAt(i)\<close> read one code
  unit, and a regular expression without the \<open>u\<close> flag matches code unit by code unit.
  Only the spread \<open>[...s]\<close> walks the string by code points, joining a leading
  surrogate with the trailing surrogate that follows it.
\<close>

type_synonym unit16 = "16 word"
type_synonym jsstring = "unit16 list"

text \<open>\<open>s.charCodeAt(i)\<close>: the code unit as a number, \<open>NaN\<close> (here \<open>None\<close>) out of range.\<close>

definition charCodeAt :: "jsstring \<Rightarrow> nat \<Rightarrow> int option" where
  "charCodeAt s i = (if i < length s then Some (uint (s ! i)) else None)"

text \<open>\<open>String.fromCharCode(n)\<close>: the number is reduced modulo \<open>2 ^ 16\<close>.\<close>

definition fromCharCode :: "int \<Rightarrow> jsstring" where
  "fromCharCode n = [word_of_int n]"

text \<open>\<open>s[i]\<close>: a one-unit string, \<open>undefined\<close> (here \<open>None\<close>) out of range.\<close>

definition str_index :: "jsstring \<Rightarrow> nat \<Rightarrow> jsstring option" where
  "str_index s i = (if i < length s then Some [s ! i] else None)"

definition is_lead_surrogate :: "unit16 \<Rightarrow> bool" where
  "is_lead_surrogate c \<longleftrightarrow> 0xD800 \<le> c \<and> c \<le> 0xDBFF"

definition is_trail_surrogate :: "unit16 \<Rightarrow> bool" where
  "is_trail_surrogate c \<longleftrightarrow> 0xDC00 \<le> c \<and> c \<le> 0xDFFF"

text \<open>
  \<open>[...s]\<close>: the string iterator. Each element is a string of one code unit, or of two
  when a leading surrogate is directly followed by a trailing one; an unpaired
  surrogate is an element of its own.
\<close>

fun spread :: "jsstring \<Rightarrow> jsstring list" where
  "spread [] = []"
| "spread [c] = [[c]]"
| "spread (c # d # rest) =
     (if is_lead_surrogate c \<and> is_trail_surrogate d then [c, d] # spread rest
      else [c] # spread (d # rest))"

text \<open>
  The UTF-16 form of a Unicode scalar value, as the language stores a character:
  one code unit below \<open>0x10000\<close>, a surrogate pair from there on.
\<close>

definition is_scalar :: "nat \<Rightarrow> bool" where
  "is_scalar cp \<longleftrightarrow> cp < 0xD800 \<or> (0xDFFF < cp \<and> cp \<le> 0x10FFFF)"

definition utf16 :: "nat \<Rightarrow> jsstring" where
  "utf16 cp =
     (if cp < 0x10000 then [word_of_nat cp]
      else [word_of_nat (0xD800 + (cp - 0x10000) div 0x400),
            word_of_nat (0xDC00 + (cp - 0x10000) mod 0x400)])"

definition utf16_string :: "nat list \<Rightarrow> jsstring" where
  "utf16_string cps = concat (map utf16 cps)"

section \<open>Character type detection\<close>

definition isHiragana :: "jsstring \<Rightarrow> bool" where
  "isHiragana char =
     (if char = [] then False
      else case charCodeAt char 0 of
             None \<Rightarrow> False
           | Some code \<Rightarrow> code \<ge> 0x3040 \<and> code \<le> 0x309f)"

definition isKatakana :: "jsstring \<Rightarrow> bool" where
  "isKatakana char =
     (if char = [] then False
      else case charCodeAt char 0 of
             None \<Rightarrow> False
           | Some code \<Rightarrow> code \<ge> 0x30a0 \<and> code \<le> 0x30ff)"

definition isKanji :: "jsstring \<Rightarrow> bool" where
  "isKanji char =
     (if char = [] then False
      else case charCodeAt char 0 of
             None \<Rightarrow> False
           | Some code \<Rightarrow>
               (code \<ge> 0x4e00 \<and> code \<le> 0x9faf) \<or>
               (code \<ge> 0x3400 \<and> code \<le> 0x4dbf) \<or>
               (code \<ge> 0x20000 \<and> code \<le> 0x2a6df))"

definition isFullWidth :: "jsstring \<Rightarrow> bool" where
  "isFullWidth char =
     (if char = [] then False
      else case charCodeAt char 0 of
             None \<Rightarrow> False
           | Some code \<Rightarrow> code > 0xff)"

definition isHalfWidth :: "jsstring \<Rightarrow> bool" where
  "isHalfWidth char = (if char = [] then False else \<not> isFullWidth char)"

definition isAllHiragana :: "jsstring \<Rightarrow> bool" where
  "isAllHiragana text = (if text = [] then False else list_all isHiragana (spread text))"

definition isAllKatakana :: "jsstring \<Rightarrow> bool" where
  "isAllKatakana text = (if text = [] then False else list_all isKatakana (spread text))"

definition isAllKanji :: "jsstring \<Rightarrow> bool" where
  "isAllKanji text = (if text = [] then False else list_all isKanji (spread text))"

section \<open>Character conversion\<close>

text \<open>
  \<open>text.replace(/[...]/g, f)\<close> with a character class and no \<open>u\<close> flag: every code
  unit in the class is a match of length one and is replaced by \<open>f\<close> of that
  one-unit string; the other code units are copied.
\<close>

definition replace_class :: "(unit16 \<Rightarrow> bool) \<Rightarrow> (jsstring \<Rightarrow> jsstring) \<Rightarrow> jsstring \<Rightarrow> jsstring" where
  "replace_class cls f text = concat (map (\<lambda>c. if cls c then f [c] else [c]) text)"

text \<open>Arithmetic on the number read by \<open>charCodeAt\<close>; \<open>NaN\<close> stays \<open>NaN\<close>, and
  \<open>String.fromCharCode(NaN)\<close> is the code unit 0.\<close>

definition shift_code :: "int \<Rightarrow> jsstring \<Rightarrow> jsstring" where
  "shift_code d char =
     (case charCodeAt char 0 of
        None \<Rightarrow> fromCharCode 0
      | Some code \<Rightarrow> fromCharCode (code + d))"

definition hiraganaToKatakana :: "jsstring \<Rightarrow> jsstring" where
  "hiraganaToKatakana text =
     replace_class (\<lambda>c. 0x3041 \<le> c \<and> c \<le> 0x3096) (shift_code 0x60) text"

definition katakanaToHiragana :: "jsstring \<Rightarrow> jsstring" where
  "katakanaToHiragana text =
     replace_class (\<lambda>c. 0x30a1 \<le> c \<and> c \<le> 0x30f6) (shift_code (- 0x60)) text"



text \<open>
  The three lookup tables are object literals keyed by one-character strings; they are
  kept as association lists in the order of the source. Every key and every value is
  one code unit long.
\<close>

definition halfToFull :: "(jsstring \<times> jsstring) list" where
  "halfToFull =
   [([0xFF71], [0x30A2]), ([0xFF72], [0x30A4]), ([0xFF73], [0x30A6]), ([0xFF74], [0x30A8]),
    ([0xFF75], [0x30AA]), ([0xFF76], [0x30AB]), ([0xFF77], [0x30AD]), ([0xFF78], [0x30AF]),
    ([0xFF79], [0x30B1]), ([0xFF7A], [0x30B3]), ([0xFF7B], [0x30B5]), ([0xFF7C], [0x30B7]),
    ([0xFF7D], [0x30B9]), ([0xFF7E], [0x30BB]), ([0xFF7F], [0x30BD]), ([0xFF80], [0x30BF]),
    ([0xFF81], [0x30C1]), ([0xFF82], [0x30C4]), ([0xFF83], [0x30C6]), ([0xFF84], [0x30C8]),
    ([0xFF85], [0x30CA]), ([0xFF86], [0x30CB]), ([0xFF87], [0x30CC]), ([0xFF88], [0x30CD]),
    ([0xFF89], [0x30CE]), ([0xFF8A], [0x30CF]), ([0xFF8B], [0x30D2]), ([0xFF8C], [0x30D5]),
    ([0xFF8D], [0x30D8]), ([0xFF8E], [0x30DB]), ([0xFF8F], [0x30DE]), ([0xFF90], [0x30DF]),
    ([0xFF91], [0x30E0]), ([0xFF92], [0x30E1]), ([0xFF93], [0x30E2]), ([0xFF94], [0x30E4]),
    ([0xFF95], [0x30E6]), ([0xFF96], [0x30E8]), ([0xFF97], [0x30E9]), ([0xFF98], [0x30EA]),
    ([0xFF99], [0x30EB]), ([0xFF9A], [0x30EC]), ([0xFF9B], [0x30ED]), ([0xFF9C], [0x30EF]),
    ([0xFF66], [0x30F2]), ([0xFF9D], [0x30F3]), ([0xFF67], [0x30A1]), ([0xFF68], [0x30A3]),
    ([0xFF69], [0x30A5]), ([0xFF6A], [0x30A7]), ([0xFF6B], [0x30A9]), ([0xFF6C], [0x30E3]),
    ([0xFF6D], [0x30E5]), ([0xFF6E], [0x30E7]), ([0xFF6F], [0x30C3]), ([0xFF70], [0x30FC]),
    ([0xFF61], [0x3002]), ([0xFF62], [0x300C]), ([0xFF63], [0x300D]), ([0xFF64], [0x3001]),
    ([0xFF65], [0x30FB]), ([0xFF9E], [0x309B]), ([0xFF9F], [0x309C])]"

definition dakutenMap :: "(jsstring \<times> jsstring) list" where
  "dakutenMap =
   [([0x30AB], [0x30AC]), ([0x30AD], [0x30AE]), ([0x30AF], [0x30B0]), ([0x30B1], [0x30B2]),
    ([0x30B3], [0x30B4]), ([0x30B5], [0x30B6]), ([0x30B7], [0x30B8]), ([0x30B9], [0x30BA]),
    ([0x30BB], [0x30BC]), ([0x30BD], [0x30BE]), ([0x30BF], [0x30C0]), ([0x30C1], [0x30C2]),
    ([0x30C4], [0x30C5]), ([0x30C6], [0x30C7]), ([0x30C8], [0x30C9]), ([0x30CF], [0x30D0]),
    ([0x30D2], [0x30D3]), ([0x30D5], [0x30D6]), ([0x30D8], [0x30D9]), ([0x30DB], [0x30DC])]"

definition handakutenMap :: "(jsstring \<times> jsstring) list" where
  "handakutenMap =
   [([0x30CF], [0x30D1]), ([0x30D2], [0x30D4]), ([0x30D5], [0x30D7]), ([0x30D8], [0x30DA]),
    ([0x30DB], [0x30DD])]"

text \<open>\<open>table[key] || key\<close>: the entry when there is one and it is a non-empty string,
  the key otherwise.\<close>

definition lookup_or :: "(jsstring \<times> jsstring) list \<Rightarrow> jsstring \<Rightarrow> jsstring" where
  "lookup_or table key =
     (case map_of table key of
        None \<Rightarrow> key
      | Some v \<Rightarrow> if v = [] then key else v)"

definition addDakuten :: "jsstring \<Rightarrow> jsstring" where
  "addDakuten char = lookup_or dakutenMap char"

definition addHandakuten :: "jsstring \<Rightarrow> jsstring" where
  "addHandakuten char = lookup_or handakutenMap char"

definition dakuten_mark :: jsstring where
  "dakuten_mark = [0xFF9E]"

definition handakuten_mark :: jsstring where
  "handakuten_mark = [0xFF9F]"

text \<open>
  The body of \<open>halfToFullKatakana\<close> is a \<open>for\<close> loop over the index \<open>i\<close> with the
  accumulator \<open>result\<close>; the branch that combines a mark advances \<open>i\<close> twice.
\<close>

function halfToFullKatakana_loop :: "jsstring \<Rightarrow> nat \<Rightarrow> jsstring \<Rightarrow> jsstring" where
  "halfToFullKatakana_loop text i result =
     (if i < length text then
        (if str_index text (i + 1) = Some dakuten_mark
            \<or> str_index text (i + 1) = Some handakuten_mark then
           (if str_index text (i + 1) = Some dakuten_mark then
              halfToFullKatakana_loop text (i + 2)
                (result @ addDakuten (lookup_or halfToFull [text ! i]))
            else
              halfToFullKatakana_loop text (i + 2)
                (result @ addHandakuten (lookup_or halfToFull [text ! i])))
         else
           halfToFullKatakana_loop text (i + 1) (result @ lookup_or halfToFull [text ! i]))
      else result)"
  by pat_completeness auto
termination
  by (relation "measure (\<lambda>(text, i, result). length text - i)") auto

declare halfToFullKatakana_loop.simps [simp del]

definition halfToFullKatakana :: "jsstring \<Rightarrow> jsstring" where
  "halfToFullKatakana text = halfToFullKatakana_loop text 0 []"

section \<open>Text analysis\<close>

definition getDisplayWidth :: "jsstring \<Rightarrow> nat" where
  "getDisplayWidth text =
     foldl (\<lambda>width char. width + (if isFullWidth char then 2 else 1)) 0 (spread text)"

record CharacterStats =
  total_count :: nat
  hiragana :: nat
  katakana :: nat
  kanji :: nat
  fullWidth :: nat
  halfWidth :: nat
  displayWidth :: nat

definition getCharacterStats :: "jsstring \<Rightarrow> CharacterStats" where
  "getCharacterStats text =
     (let chars = spread text in
      \<lparr> total_count = length chars,
        hiragana = length (filter isHiragana chars),
        katakana = length (filter isKatakana chars),
        kanji = length (filter isKanji chars),
        fullWidth = length (filter isFullWidth chars),
        halfWidth = length (filter isHalfWidth chars),
        displayWidth = getDisplayWidth text \<rparr>)"




section \<open>Whitespace\<close>

text \<open>
  The class escape \<open>\s\<close> of the language: the white space code points (tab, vertical
  tab, form feed, the byte order mark and every space separator) and the line
  terminators (line feed, carriage return, line and paragraph separator).
\<close>

definition regex_s :: "unit16 \<Rightarrow> bool" where
  "regex_s c \<longleftrightarrow>
     c = 0x0009 \<or> c = 0x000B \<or> c = 0x000C \<or> c = 0xFEFF \<or>
     c = 0x0020 \<or> c = 0x00A0 \<or> c = 0x1680 \<or> (0x2000 \<le> c \<and> c \<le> 0x200A) \<or>
     c = 0x202F \<or> c = 0x205F \<or> c = 0x3000 \<or>
     c = 0x000A \<or> c = 0x000D \<or> c = 0x2028 \<or> c = 0x2029"

text \<open>The class \<open>[\s\u3000]\<close> of the three whitespace functions.\<close>

definition space_class :: "unit16 \<Rightarrow> bool" where
  "space_class c \<longleftrightarrow> regex_s c \<or> c = 0x3000"

definition removeAllWhitespace :: "jsstring \<Rightarrow> jsstring" where
  "removeAllWhitespace text = replace_class space_class (\<lambda>m. []) text"


text \<open>
  \<open>text.replace(/^[\s\u3000]+|[\s\u3000]+$/g, '')\<close>: the matcher walks the string from
  the left. At the start of the string the first alternative takes the longest run of
  class characters; the search goes on after the match. Away from the start only the
  second alternative can match, and it does where a non-empty run of class characters
  reaches the end of the string. A character where nothing matches is copied.
\<close>

function trim_scan :: "bool \<Rightarrow> jsstring \<Rightarrow> jsstring" where
  "trim_scan at_start [] = []"
| "trim_scan at_start (c # cs) =
     (if at_start \<and> space_class c then trim_scan False (dropWhile space_class cs)
      else if list_all space_class (c # cs) then []
      else c # trim_scan False cs)"
  by pat_completeness auto
termination
  by (relation "measure (\<lambda>(at_start, s). length s)")
     (auto simp: length_dropWhile_le less_Suc_eq_le)

declare trim_scan.simps [simp del]

definition trimJapanese :: "jsstring \<Rightarrow> jsstring" where
  "trimJapanese text = trim_scan True text"

section \<open>Calls and their outcome\<close>






























section \<open>Facts about the string model\<close>

lemma spread_nonempty: "e \<in> set (spread s) \<Longrightarrow> e \<noteq> []"
  by (induction s rule: spread.induct) (auto split: if_splits)

lemma spread_eq_Nil: "spread s = [] \<longleftrightarrow> s = []"
  by (cases s rule: spread.cases) auto

lemma concat_spread: "concat (spread s) = s"
  by (induction s rule: spread.induct) auto

lemma lead_unat: "is_lead_surrogate c \<longleftrightarrow> 0xD800 \<le> unat c \<and> unat c \<le> 0xDBFF"
  by (simp add: is_lead_surrogate_def word_le_nat_alt)

lemma trail_unat: "is_trail_surrogate c \<longleftrightarrow> 0xDC00 \<le> unat c \<and> unat c \<le> 0xDFFF"
  by (simp add: is_trail_surrogate_def word_le_nat_alt)

lemma unat_of_nat16: "n < 0x10000 \<Longrightarrow> unat (word_of_nat n :: unit16) = n"
  by (simp add: unat_of_nat)

text \<open>The iterator gives back the characters a well-formed string was built from.\<close>

lemma spread_utf16:
  assumes "is_scalar cp"
  shows "spread (utf16 cp @ rest) = utf16 cp # spread rest"
proof (cases "cp < 0x10000")
  case True
  then have u: "unat (word_of_nat cp :: unit16) = cp" by (rule unat_of_nat16)
  from assms True have "\<not> is_lead_surrogate (word_of_nat cp)"
    by (auto simp: lead_unat u is_scalar_def)
  then show ?thesis using True by (cases rest) (simp_all add: utf16_def)
next
  case False
  define v where "v = cp - 0x10000"
  from False assms have v: "v < 0x100000" by (simp add: v_def is_scalar_def)
  then have "v div 0x400 < 0x400" by simp
  then have hi: "unat (word_of_nat (0xD800 + v div 0x400) :: unit16) = 0xD800 + v div 0x400"
    by (intro unat_of_nat16) simp
  have "v mod 0x400 < 0x400" by simp
  then have lo: "unat (word_of_nat (0xDC00 + v mod 0x400) :: unit16) = 0xDC00 + v mod 0x400"
    by (intro unat_of_nat16) simp
  have "is_lead_surrogate (word_of_nat (0xD800 + v div 0x400))"
    unfolding lead_unat hi using \<open>v div 0x400 < 0x400\<close> by simp
  moreover have "is_trail_surrogate (word_of_nat (0xDC00 + v mod 0x400))"
    unfolding trail_unat lo using \<open>v mod 0x400 < 0x400\<close> by simp
  ultimately show ?thesis using False by (simp add: utf16_def v_def)
qed

lemma spread_utf16_string:
  "list_all is_scalar cps \<Longrightarrow> spread (utf16_string cps) = map utf16 cps"
proof (induction cps)
  case Nil
  then show ?case by (simp add: utf16_string_def)
next
  case (Cons cp cps)
  then show ?case using spread_utf16 [of cp "utf16_string cps"]
    by (simp add: utf16_string_def)
qed

section \<open>Classifier\<close>

text \<open>
  \<open>charCodeAt(0)\<close> reads one code unit, so the number that \<open>isKanji\<close> tests is below
  \<open>0x10000\<close> and its third range never applies.
\<close>

lemma isKanji_first_unit:
  "isKanji (c # rest) \<longleftrightarrow>
     (0x4e00 \<le> uint c \<and> uint c \<le> 0x9faf) \<or> (0x3400 \<le> uint c \<and> uint c \<le> 0x4dbf)"
proof -
  have "uint c < 2 ^ LENGTH(16)" by (rule uint_lt2p)
  then have "uint c < 0x10000" by simp
  then show ?thesis by (auto simp: isKanji_def charCodeAt_def)
qed

lemma isKanji_supplementary_false:
  assumes "0x10000 \<le> cp" and "cp \<le> 0x10FFFF"
  shows "\<not> isKanji (utf16 cp)"
proof -
  define v where "v = cp - 0x10000"
  from assms have "v < 0x100000" unfolding v_def by linarith
  then have "v div 0x400 < 0x400" by simp
  then have hi: "unat (word_of_nat (0xD800 + v div 0x400) :: unit16) = 0xD800 + v div 0x400"
    by (intro unat_of_nat16) simp
  have "uint (word_of_nat (0xD800 + v div 0x400) :: unit16) = int (0xD800 + v div 0x400)"
    using hi by (simp only: uint_nat)
  then have "0xD800 \<le> uint (word_of_nat (0xD800 + v div 0x400) :: unit16)" by simp
  then show ?thesis using assms
    by (simp add: utf16_def isKanji_first_unit v_def)
qed

text \<open>
  C1. The claim: \<open>isKanji\<close> is true of a character exactly when its code point is in
  \<open>[0x4E00, 0x9FAF]\<close>, \<open>[0x3400, 0x4DBF]\<close> or \<open>[0x20000, 0x2A6DF]\<close>, so in particular of
  every CJK Extension B character. The code does not do this: the first character of
  Extension B, U+20000, is stored as the surrogate pair \<open>D840 DC00\<close>, \<open>charCodeAt(0)\<close>
  reads \<open>0xD840\<close>, and \<open>isKanji\<close> answers false.
\<close>

theorem isKanji_extension_b_first:
  "utf16 0x20000 = [0xD840, 0xDC00] \<and> isKanji (utf16 0x20000) = False"
  by (simp add: utf16_def isKanji_first_unit)

text \<open>
  C7. \<open>isAllHiragana\<close>, \<open>isAllKatakana\<close> and \<open>isAllKanji\<close> hold of a string exactly
  when the string is not empty and each of its characters (the elements of the spread)
  satisfies the predicate for one character; on the empty string all three are false.
\<close>

theorem isAll_iff:
  "(isAllHiragana s \<longleftrightarrow> s \<noteq> [] \<and> (\<forall>c \<in> set (spread s). isHiragana c))
   \<and> (isAllKatakana s \<longleftrightarrow> s \<noteq> [] \<and> (\<forall>c \<in> set (spread s). isKatakana c))
   \<and> (isAllKanji s \<longleftrightarrow> s \<noteq> [] \<and> (\<forall>c \<in> set (spread s). isKanji c))
   \<and> \<not> isAllHiragana [] \<and> \<not> isAllKatakana [] \<and> \<not> isAllKanji []"
  by (simp add: isAllHiragana_def isAllKatakana_def isAllKanji_def list_all_iff)

theorem isAll_iff_witness:
  "isAllHiragana [0x3042, 0x3044] \<and> \<not> isAllHiragana [0x3042, 0x41]
   \<and> isAllKatakana [0x30A2] \<and> isAllKanji [0x6F22, 0x5B57] \<and> \<not> isAllKanji [0x6F22, 0x3042]"
  using isAll_iff [of "[0x3042, 0x3044]"] isAll_iff [of "[0x3042, 0x41]"] isAll_iff [of "[0x30A2]"]
    isAll_iff [of "[0x6F22, 0x5B57]"] isAll_iff [of "[0x6F22, 0x3042]"]
  by (simp add: isHiragana_def isKatakana_def isKanji_def charCodeAt_def
      is_lead_surrogate_def is_trail_surrogate_def)

section \<open>Analyzer\<close>

lemma isHalfWidth_spread: "e \<in> set (spread s) \<Longrightarrow> isHalfWidth e = (\<not> isFullWidth e)"
  using spread_nonempty by (auto simp: isHalfWidth_def)

lemma filter_halfWidth_spread:
  "filter isHalfWidth (spread s) = filter (\<lambda>e. \<not> isFullWidth e) (spread s)"
  by (rule filter_cong) (auto simp: isHalfWidth_spread)

lemma script_disjoint:
  "\<not> (isHiragana e \<and> isKatakana e)" "\<not> (isHiragana e \<and> isKanji e)" "\<not> (isKatakana e \<and> isKanji e)"
  by (auto simp: isHiragana_def isKatakana_def isKanji_def split: option.splits)

lemma three_filters_le:
  "length (filter isHiragana xs) + length (filter isKatakana xs) + length (filter isKanji xs)
     \<le> length xs"
  using script_disjoint by (induction xs) auto

lemma foldl_width:
  "foldl (\<lambda>width char. width + (if P char then 2 else 1)) a xs
     = a + 2 * length (filter P xs) + length (filter (\<lambda>e. \<not> P e) xs)"
  by (induction xs arbitrary: a) auto

text \<open>
  C5. In the record of \<open>getCharacterStats\<close> the full-width and half-width counts add up
  to the total, the hiragana, katakana and kanji counts together do not exceed it, and
  for a string that stores the scalar values \<open>cps\<close> the total is their number.
\<close>

theorem stats_invariants:
  "fullWidth (getCharacterStats s) + halfWidth (getCharacterStats s)
     = total_count (getCharacterStats s)
   \<and> hiragana (getCharacterStats s) + katakana (getCharacterStats s) + kanji (getCharacterStats s)
        \<le> total_count (getCharacterStats s)
   \<and> (list_all is_scalar cps \<longrightarrow>
        total_count (getCharacterStats (utf16_string cps)) = length cps)"
proof (intro conjI impI)
  show "fullWidth (getCharacterStats s) + halfWidth (getCharacterStats s)
          = total_count (getCharacterStats s)"
    using sum_length_filter_compl [of isFullWidth "spread s"]
    by (simp add: getCharacterStats_def Let_def filter_halfWidth_spread)
  show "hiragana (getCharacterStats s) + katakana (getCharacterStats s) + kanji (getCharacterStats s)
        \<le> total_count (getCharacterStats s)"
    using three_filters_le [of "spread s"] by (simp add: getCharacterStats_def Let_def)
  assume "list_all is_scalar cps"
  then show "total_count (getCharacterStats (utf16_string cps)) = length cps"
    by (simp add: getCharacterStats_def Let_def spread_utf16_string)
qed

theorem stats_invariants_witness:
  "list_all is_scalar [0x3042, 0x20000, 0x41] \<and>
   getCharacterStats (utf16_string [0x3042, 0x20000, 0x41]) =
     \<lparr> total_count = 3, hiragana = 1, katakana = 0, kanji = 0,
       fullWidth = 2, halfWidth = 1, displayWidth = 5 \<rparr>
   \<and> total_count (getCharacterStats (utf16_string [0x3042, 0x20000, 0x41]))
       = length [0x3042, 0x20000, 0x41 :: nat]"
  using stats_invariants [of "utf16_string [0x3042, 0x20000, 0x41]" "[0x3042, 0x20000, 0x41]"]
  by (simp add: is_scalar_def getCharacterStats_def utf16_string_def utf16_def
      is_lead_surrogate_def is_trail_surrogate_def isHiragana_def isKatakana_def isKanji_def
      isFullWidth_def isHalfWidth_def charCodeAt_def getDisplayWidth_def)

text \<open>
  C10. The \<open>displayWidth\<close> field is twice the full-width count plus the half-width
  count, and it is the value of \<open>getDisplayWidth\<close> on the same string.
\<close>

theorem displayWidth_from_counts:
  "displayWidth (getCharacterStats s)
     = 2 * fullWidth (getCharacterStats s) + halfWidth (getCharacterStats s)
   \<and> displayWidth (getCharacterStats s) = getDisplayWidth s"
  by (simp add: getCharacterStats_def Let_def getDisplayWidth_def foldl_width
      filter_halfWidth_spread)

section \<open>Converter\<close>

lemma shift_code_unit: "shift_code d [c] = [c + word_of_int d]"
  by (simp add: shift_code_def charCodeAt_def fromCharCode_def)

lemma hira_shift_range:
  fixes c :: unit16
  assumes "0x3041 \<le> c \<and> c \<le> 0x3096"
  shows "0x30a1 \<le> c + 0x60 \<and> c + 0x60 \<le> 0x30f6"
proof -
  from assms have b: "0x3041 \<le> unat c" "unat c \<le> 0x3096"
    by (simp_all add: word_le_nat_alt)
  have "unat (c + 0x60) = (unat c + 0x60) mod 0x10000"
    by (simp add: unat_word_ariths)
  with b have "unat (c + 0x60) = unat c + 0x60" by simp
  with b show ?thesis by (simp add: word_le_nat_alt)
qed

lemma roundtrip_unit:
  fixes c :: unit16
  assumes "0x3041 \<le> c \<and> c \<le> 0x3096"
  shows "katakanaToHiragana (hiraganaToKatakana [c]) = [c]"
  using assms hira_shift_range [OF assms]
  by (simp add: katakanaToHiragana_def hiraganaToKatakana_def replace_class_def shift_code_unit)

lemma replace_class_append:
  "replace_class cls f (s @ t) = replace_class cls f s @ replace_class cls f t"
  by (simp add: replace_class_def)

text \<open>
  C6. A string whose characters all lie in \<open>[0x3041, 0x3096]\<close> (each is then one code
  unit) comes back unchanged from \<open>hiraganaToKatakana\<close> followed by
  \<open>katakanaToHiragana\<close>.
\<close>

theorem kana_roundtrip:
  "\<forall>c \<in> set s. 0x3041 \<le> c \<and> c \<le> 0x3096
   \<Longrightarrow> katakanaToHiragana (hiraganaToKatakana s) = s"
proof (induction s)
  case Nil
  then show ?case by (simp add: katakanaToHiragana_def hiraganaToKatakana_def replace_class_def)
next
  case (Cons c s)
  then have r: "0x3041 \<le> c \<and> c \<le> 0x3096" by simp
  have "hiraganaToKatakana (c # s) = hiraganaToKatakana [c] @ hiraganaToKatakana s"
    by (simp add: hiraganaToKatakana_def replace_class_def)
  then have "katakanaToHiragana (hiraganaToKatakana (c # s))
      = katakanaToHiragana (hiraganaToKatakana [c]) @ katakanaToHiragana (hiraganaToKatakana s)"
    by (simp add: katakanaToHiragana_def replace_class_append)
  with Cons roundtrip_unit [OF r] show ?case by simp
qed

theorem kana_roundtrip_witness:
  "list_all (\<lambda>c. 0x3041 \<le> c \<and> c \<le> 0x3096) [0x306B, 0x307B, 0x3093 :: unit16]
   \<and> hiraganaToKatakana [0x306B, 0x307B, 0x3093] = [0x30CB, 0x30DB, 0x30F3]
   \<and> katakanaToHiragana [0x30CB, 0x30DB, 0x30F3] = [0x306B, 0x307B, 0x3093]"
  using kana_roundtrip [of "[0x306B, 0x307B, 0x3093]"]
  by (simp add: hiraganaToKatakana_def replace_class_def shift_code_unit)

text \<open>The cursor loop started behind a prefix behaves as on the rest alone.\<close>

lemma str_index_append:
  "str_index (pre @ s) (length pre + i) = str_index s i"
  by (simp add: str_index_def nth_append)

lemma loop_skip_prefix:
  "halfToFullKatakana_loop (pre @ s) (length pre + i) result = halfToFullKatakana_loop s i result"
proof (induction s i result rule: halfToFullKatakana_loop.induct)
  case (1 s i result)
  have idx: "str_index (pre @ s) (length pre + i + 1) = str_index s (i + 1)"
    using str_index_append [of pre s "i + 1"] by (simp add: add.assoc)
  have nth: "i < length s \<Longrightarrow> (pre @ s) ! (length pre + i) = s ! i"
    by (simp add: nth_append)
  have l: "halfToFullKatakana_loop (pre @ s) (length pre + i) result =
     (if i < length s then
        (if str_index s (i + 1) = Some dakuten_mark
            \<or> str_index s (i + 1) = Some handakuten_mark then
           (if str_index s (i + 1) = Some dakuten_mark then
              halfToFullKatakana_loop (pre @ s) (length pre + (i + 2))
                (result @ addDakuten (lookup_or halfToFull [s ! i]))
            else
              halfToFullKatakana_loop (pre @ s) (length pre + (i + 2))
                (result @ addHandakuten (lookup_or halfToFull [s ! i])))
         else
           halfToFullKatakana_loop (pre @ s) (length pre + (i + 1)) (result @ lookup_or halfToFull [s ! i]))
      else result)"
    using idx nth
    by (subst halfToFullKatakana_loop.simps [of "pre @ s" "length pre + i" result])
       (simp add: add.assoc)
  show ?case
    by (subst l, subst halfToFullKatakana_loop.simps [of s i result]) (use "1.IH" in auto)
qed

lemma loop_result_prefix:
  "halfToFullKatakana_loop s i (r @ result) = r @ halfToFullKatakana_loop s i result"
proof (induction s i result rule: halfToFullKatakana_loop.induct)
  case (1 s i result)
  show ?case
    by (subst halfToFullKatakana_loop.simps [of s i "r @ result"],
        subst halfToFullKatakana_loop.simps [of s i result])
       (use "1.IH" in auto)
qed

lemma halfToFullKatakana_Nil: "halfToFullKatakana [] = []"
  by (simp add: halfToFullKatakana_def halfToFullKatakana_loop.simps)

lemma loop_from_prefix:
  "halfToFullKatakana_loop (pre @ s) (length pre) result = result @ halfToFullKatakana s"
  using loop_skip_prefix [of pre s 0 result] loop_result_prefix [of s 0 result "[]"]
  by (simp add: halfToFullKatakana_def)

lemma halfToFullKatakana_dakuten:
  "halfToFullKatakana (c # 0xFF9E # rest) = addDakuten (lookup_or halfToFull [c]) @ halfToFullKatakana rest"
  using loop_from_prefix [of "[c, 0xFF9E]" rest "addDakuten (lookup_or halfToFull [c])"]
  by (simp add: halfToFullKatakana_def halfToFullKatakana_loop.simps [of "c # 0xFF9E # rest" 0]
      str_index_def dakuten_mark_def)

lemma halfToFullKatakana_handakuten:
  "halfToFullKatakana (c # 0xFF9F # rest) = addHandakuten (lookup_or halfToFull [c]) @ halfToFullKatakana rest"
  using loop_from_prefix [of "[c, 0xFF9F]" rest "addHandakuten (lookup_or halfToFull [c])"]
  by (simp add: halfToFullKatakana_def halfToFullKatakana_loop.simps [of "c # 0xFF9F # rest" 0]
      str_index_def dakuten_mark_def handakuten_mark_def)

lemma halfToFullKatakana_plain:
  "rest = [] \<or> (hd rest \<noteq> 0xFF9E \<and> hd rest \<noteq> 0xFF9F) \<Longrightarrow>
   halfToFullKatakana (c # rest) = lookup_or halfToFull [c] @ halfToFullKatakana rest"
proof -
  assume a: "rest = [] \<or> (hd rest \<noteq> 0xFF9E \<and> hd rest \<noteq> 0xFF9F)"
  then have n: "str_index (c # rest) (0 + 1) \<noteq> Some dakuten_mark
              \<and> str_index (c # rest) (0 + 1) \<noteq> Some handakuten_mark"
    by (cases rest) (auto simp: str_index_def dakuten_mark_def handakuten_mark_def)
  have "halfToFullKatakana_loop (c # rest) 0 [] =
        halfToFullKatakana_loop (c # rest) (0 + 1) ([] @ lookup_or halfToFull [(c # rest) ! 0])"
    using n by (subst halfToFullKatakana_loop.simps [of "c # rest" 0 "[]"]) simp
  then show ?thesis
    using loop_from_prefix [of "[c]" rest "lookup_or halfToFull [c]"]
    by (simp add: halfToFullKatakana_def)
qed

lemma dakutenMap_values: "map_of dakutenMap b = Some v \<Longrightarrow> v \<noteq> []"
  by (auto simp: dakutenMap_def split: if_splits)

lemma handakutenMap_values: "map_of handakutenMap b = Some v \<Longrightarrow> v \<noteq> []"
  by (auto simp: handakutenMap_def split: if_splits)

lemma halfToFull_values: "map_of halfToFull b = Some v \<Longrightarrow> v \<noteq> []"
  by (auto simp: halfToFull_def split: if_splits)


lemma lookup_or_image:
  "lookup_or halfToFull key = (case map_of halfToFull key of None \<Rightarrow> key | Some b \<Rightarrow> b)"
  using halfToFull_values [of key] by (auto simp: lookup_or_def split: option.splits)

text \<open>
  C2. When the cursor of \<open>halfToFullKatakana\<close> stands on a half-width katakana \<open>c\<close>
  (a key of the half-to-full table, with image \<open>b\<close>) and the next character is the
  half-width dakuten mark U+FF9E, respectively the handakuten mark U+FF9F, and \<open>b\<close>
  has the voiced, respectively semi-voiced, form \<open>v\<close>, the loop appends \<open>v\<close> for the
  two characters and goes on behind them. The two strings of the specification give
  "GA GI GU" and "PA PI PU" in full-width katakana.
\<close>

theorem mark_combining:
  "(map_of halfToFull [c] = Some b \<and> map_of dakutenMap b = Some v \<longrightarrow>
      halfToFullKatakana_loop (pre @ c # 0xFF9E # rest) (length pre) result
        = result @ v @ halfToFullKatakana rest)
   \<and> (map_of halfToFull [c] = Some b \<and> map_of handakutenMap b = Some v \<longrightarrow>
      halfToFullKatakana_loop (pre @ c # 0xFF9F # rest) (length pre) result
        = result @ v @ halfToFullKatakana rest)
   \<and> halfToFullKatakana [0xFF76, 0xFF9E, 0xFF77, 0xFF9E, 0xFF78, 0xFF9E] = [0x30AC, 0x30AE, 0x30B0]
   \<and> halfToFullKatakana [0xFF8A, 0xFF9F, 0xFF8B, 0xFF9F, 0xFF8C, 0xFF9F] = [0x30D1, 0x30D4, 0x30D7]"
proof (intro conjI impI)
  assume h: "map_of halfToFull [c] = Some b \<and> map_of dakutenMap b = Some v"
  then have "lookup_or halfToFull [c] = b" by (simp add: lookup_or_image)
  moreover from h have "addDakuten b = v"
    using dakutenMap_values [of b v] by (simp add: addDakuten_def lookup_or_def)
  ultimately show "halfToFullKatakana_loop (pre @ c # 0xFF9E # rest) (length pre) result
        = result @ v @ halfToFullKatakana rest"
    by (simp add: loop_from_prefix halfToFullKatakana_dakuten)
next
  assume h: "map_of halfToFull [c] = Some b \<and> map_of handakutenMap b = Some v"
  then have "lookup_or halfToFull [c] = b" by (simp add: lookup_or_image)
  moreover from h have "addHandakuten b = v"
    using handakutenMap_values [of b v] by (simp add: addHandakuten_def lookup_or_def)
  ultimately show "halfToFullKatakana_loop (pre @ c # 0xFF9F # rest) (length pre) result
        = result @ v @ halfToFullKatakana rest"
    by (simp add: loop_from_prefix halfToFullKatakana_handakuten)
next
  show "halfToFullKatakana [0xFF76, 0xFF9E, 0xFF77, 0xFF9E, 0xFF78, 0xFF9E] = [0x30AC, 0x30AE, 0x30B0]"
    by (simp add: halfToFullKatakana_dakuten halfToFullKatakana_Nil addDakuten_def lookup_or_def
        halfToFull_def dakutenMap_def)
  show "halfToFullKatakana [0xFF8A, 0xFF9F, 0xFF8B, 0xFF9F, 0xFF8C, 0xFF9F] = [0x30D1, 0x30D4, 0x30D7]"
    by (simp add: halfToFullKatakana_handakuten halfToFullKatakana_Nil addHandakuten_def lookup_or_def
        halfToFull_def handakutenMap_def)
qed

theorem mark_combining_witness:
  "map_of halfToFull [0xFF76] = Some [0x30AB] \<and> map_of dakutenMap [0x30AB] = Some [0x30AC]
   \<and> halfToFullKatakana_loop [0x41, 0xFF76, 0xFF9E] 1 [0x41] = [0x41, 0x30AC]
   \<and> map_of halfToFull [0xFF8A] = Some [0x30CF] \<and> map_of handakutenMap [0x30CF] = Some [0x30D1]
   \<and> halfToFullKatakana_loop [0x41, 0xFF8A, 0xFF9F] 1 [0x41] = [0x41, 0x30D1]"
  using mark_combining [of "0xFF76" "[0x30AB]" "[0x30AC]" "[0x41]" "[]" "[0x41]"]
        mark_combining [of "0xFF8A" "[0x30CF]" "[0x30D1]" "[0x41]" "[]" "[0x41]"]
  by (simp add: halfToFull_def dakutenMap_def handakutenMap_def halfToFullKatakana_Nil)

text \<open>
  C3. When the cursor stands on a character \<open>c\<close> followed by the mark U+FF9E or U+FF9F,
  and the combining table of that mark has no entry for the half-to-full image of
  \<open>c\<close> (for \<open>c\<close> itself when the half-to-full table has no entry), the loop appends
  that image, nothing for the mark, and goes on behind the mark. (The cursor stands on
  every position of the string except a mark that the step before has consumed.) The
  example of the claim is the first half of the witness: the half-width katakana
  U+FF71 followed by the dakuten mark gives the full-width katakana U+30A2 alone.
\<close>

theorem mark_absorbed:
  "(m = 0xFF9E \<and> map_of dakutenMap (case map_of halfToFull [c] of None \<Rightarrow> [c] | Some b \<Rightarrow> b) = None)
   \<or> (m = 0xFF9F \<and> map_of handakutenMap (case map_of halfToFull [c] of None \<Rightarrow> [c] | Some b \<Rightarrow> b) = None)
   \<Longrightarrow> halfToFullKatakana_loop (pre @ c # m # rest) (length pre) result
        = result @ (case map_of halfToFull [c] of None \<Rightarrow> [c] | Some b \<Rightarrow> b)
            @ halfToFullKatakana rest"
proof -
  let ?base = "case map_of halfToFull [c] of None \<Rightarrow> [c] | Some b \<Rightarrow> b"
  assume "(m = 0xFF9E \<and> map_of dakutenMap ?base = None)
          \<or> (m = 0xFF9F \<and> map_of handakutenMap ?base = None)"
  then show ?thesis
  proof
    assume h: "m = 0xFF9E \<and> map_of dakutenMap ?base = None"
    then have "addDakuten (lookup_or halfToFull [c]) = ?base"
      by (simp add: addDakuten_def lookup_or_image) (simp add: lookup_or_def)
    with h show ?thesis by (simp add: loop_from_prefix halfToFullKatakana_dakuten)
  next
    assume h: "m = 0xFF9F \<and> map_of handakutenMap ?base = None"
    then have "addHandakuten (lookup_or halfToFull [c]) = ?base"
      by (simp add: addHandakuten_def lookup_or_image) (simp add: lookup_or_def)
    with h show ?thesis by (simp add: loop_from_prefix halfToFullKatakana_handakuten)
  qed
qed

theorem mark_absorbed_witness:
  "map_of dakutenMap (case map_of halfToFull [0xFF71] of None \<Rightarrow> [0xFF71] | Some b \<Rightarrow> b) = None
   \<and> halfToFullKatakana [0xFF71, 0xFF9E] = [0x30A2]
   \<and> map_of handakutenMap (case map_of halfToFull [0x41] of None \<Rightarrow> [0x41] | Some b \<Rightarrow> b) = None
   \<and> halfToFullKatakana [0x41, 0xFF9F, 0xFF71] = [0x41, 0x30A2]"
  unfolding halfToFullKatakana_def [of "[0xFF71, 0xFF9E]"]
    halfToFullKatakana_def [of "[0x41, 0xFF9F, 0xFF71]"]
  using mark_absorbed [of "0xFF9E" "0xFF71" "[]" "[]" "[]"]
        mark_absorbed [of "0xFF9F" "0x41" "[]" "[0xFF71]" "[]"]
        halfToFullKatakana_plain [of "[]" "0xFF71"]
  by (simp add: halfToFull_def dakutenMap_def handakutenMap_def halfToFullKatakana_Nil
      lookup_or_def)

section \<open>Whitespace normalizer\<close>

lemma filter_replace_class: "replace_class cls (\<lambda>m. []) s = filter (\<lambda>c. \<not> cls c) s"
  by (induction s) (simp_all add: replace_class_def)

lemma trim_scan_False: "trim_scan False s = rev (dropWhile space_class (rev s))"
proof (induction s)
  case Nil
  then show ?case by (simp add: trim_scan.simps)
next
  case (Cons c s)
  show ?case
  proof (cases "list_all space_class (c # s)")
    case True
    then have "dropWhile space_class (rev (c # s)) = []"
      by (simp add: list_all_iff)
    with True show ?thesis by (simp add: trim_scan.simps)
  next
    case False
    then have "trim_scan False (c # s) = c # trim_scan False s"
      by (simp add: trim_scan.simps)
    moreover have "rev (dropWhile space_class (rev s @ [c]))
                     = c # rev (dropWhile space_class (rev s))"
      using False by (auto simp: dropWhile_append list_all_iff)
    ultimately show ?thesis using Cons by simp
  qed
qed

lemma trim_scan_True: "trim_scan True s = trim_scan False (dropWhile space_class s)"
proof (cases s)
  case Nil
  then show ?thesis by (simp add: trim_scan.simps)
next
  case (Cons c cs)
  then show ?thesis by (simp add: trim_scan.simps)
qed

text \<open>What the scan computes: the leading run is dropped, then the trailing run.\<close>

lemma trimJapanese_alt:
  "trimJapanese s = rev (dropWhile space_class (rev (dropWhile space_class s)))"
  by (simp add: trimJapanese_def trim_scan_True trim_scan_False)

lemma strip_back_keeps_front:
  assumes "d = [] \<or> \<not> P (hd d)"
  shows "dropWhile P (rev (dropWhile P (rev d))) = rev (dropWhile P (rev d))"
proof (cases "rev (dropWhile P (rev d))")
  case Nil
  then show ?thesis by (simp only: dropWhile.simps)
next
  case (Cons x xs)
  have "rev d = takeWhile P (rev d) @ dropWhile P (rev d)" by simp
  then have "d = rev (dropWhile P (rev d)) @ rev (takeWhile P (rev d))"
    by (metis rev_append rev_rev_ident)
  with Cons have "d = x # xs @ rev (takeWhile P (rev d))" by simp
  then have "hd d = x" and "d \<noteq> []" by (metis list.sel(1), metis list.distinct(1))
  with assms have "\<not> P x" by auto
  with Cons show ?thesis by simp
qed

text \<open>
  C8. \<open>trimJapanese\<close> and \<open>removeAllWhitespace\<close> are idempotent: applying either a
  second time changes nothing.
\<close>

theorem whitespace_idempotent:
  "trimJapanese (trimJapanese s) = trimJapanese s
   \<and> removeAllWhitespace (removeAllWhitespace s) = removeAllWhitespace s"
proof
  define d where "d = dropWhile space_class s"
  have "d = [] \<or> \<not> space_class (hd d)"
    unfolding d_def by (metis hd_dropWhile)
  then have "dropWhile space_class (rev (dropWhile space_class (rev d)))
             = rev (dropWhile space_class (rev d))"
    by (rule strip_back_keeps_front)
  then show "trimJapanese (trimJapanese s) = trimJapanese s"
    by (simp add: trimJapanese_alt d_def)
  show "removeAllWhitespace (removeAllWhitespace s) = removeAllWhitespace s"
    by (simp add: removeAllWhitespace_def filter_replace_class)
qed

text \<open>
  C4. The claim: \<open>removeAllWhitespace\<close> deletes exactly the ASCII whitespace characters
  and U+3000, and leaves every other character, such as the no-break space U+00A0 and
  the line separator U+2028, in place. The class escape \<open>\s\<close> matches those two as
  well, so both are deleted.
\<close>

theorem removeAllWhitespace_unicode_spaces:
  "removeAllWhitespace [0x41, 0xA0, 0x42] = [0x41, 0x42]
   \<and> removeAllWhitespace [0x41, 0xA0, 0x42] \<noteq> [0x41, 0xA0, 0x42]
   \<and> removeAllWhitespace [0x41, 0x2028, 0x42] = [0x41, 0x42]
   \<and> removeAllWhitespace [0x41, 0x2028, 0x42] \<noteq> [0x41, 0x2028, 0x42]"
  by (simp add: removeAllWhitespace_def replace_class_def space_class_def regex_s_def)

lemma space_class_units:
  "space_class c \<longleftrightarrow>
     c \<in> set [0x09, 0x0A, 0x0B, 0x0C, 0x0D, 0x20, 0xA0, 0x1680, 0x2028, 0x2029, 0x202F,
               0x205F, 0x3000, 0xFEFF]
     \<or> (0x2000 \<le> c \<and> c \<le> 0x200A)"
  by (auto simp: space_class_def regex_s_def)

text \<open>
  C4, as the code has it: \<open>removeAllWhitespace\<close> deletes exactly the characters of the
  class \<open>\s\<close>, which are tab, line feed, vertical tab, form feed, carriage return,
  space, U+00A0, U+1680, U+2000 to U+200A, U+2028, U+2029, U+202F, U+205F, U+3000 and
  U+FEFF, and keeps every other character in its original order.
\<close>

theorem removeAllWhitespace_exact:
  "removeAllWhitespace s =
     filter (\<lambda>c. \<not> (c \<in> set [0x09, 0x0A, 0x0B, 0x0C, 0x0D, 0x20, 0xA0, 0x1680, 0x2028, 0x2029,
                              0x202F, 0x205F, 0x3000, 0xFEFF]
                    \<or> (0x2000 \<le> c \<and> c \<le> 0x200A))) s"
  unfolding removeAllWhitespace_def filter_replace_class
  by (rule filter_cong) (simp_all only: space_class_units)

section \<open>Totality and degenerate input\<close>












end
